theory Spec2Isabelle
  imports Complex_Main "HOL-Library.AList" "HOL-Library.List_Lexorder" "HOL-Library.Char_ord"
begin

section \<open>Data model\<close>

text \<open>
  A pandas column is a typed array. The dtype is the constructor, so a column cannot hold
  a cell of another dtype. Missing cells (NaN, None, NaT) are \<open>None\<close>; only float64,
  object and datetime64 columns can hold one. A finite double in a column is held as the
  rational it is exactly, an object cell as a string, a timestamp as an integer.
\<close>

datatype series =
    Int64 "int list"
  | Float64 "rat option list"
  | BoolCol "bool list"
  | Object "string option list"
  | Datetime64 "int option list"

datatype cell = CInt int | CFloat "rat option" | CBool bool | CObj "string option" | CDt "int option"

fun cells :: "series \<Rightarrow> cell list" where
  "cells (Int64 xs) = map CInt xs"
| "cells (Float64 xs) = map CFloat xs"
| "cells (BoolCol xs) = map CBool xs"
| "cells (Object xs) = map CObj xs"
| "cells (Datetime64 xs) = map CDt xs"

definition series_len :: "series \<Rightarrow> nat" where
  "series_len s = length (cells s)"

text \<open>
  A frame: the length of its index (the row count) and its named columns, in order. In a
  frame that pandas has read from a file the column labels are distinct and every column
  is as long as the index; \<open>wf_frame\<close> says so.
\<close>

record DataFrame =
  index_len :: nat
  columns :: "(string \<times> series) list"

definition wf_frame :: "DataFrame \<Rightarrow> bool" where
  "wf_frame d \<longleftrightarrow>
     distinct (map fst (columns d)) \<and>
     list_all (\<lambda>c. series_len (snd c) = index_len d) (columns d)"

text \<open>\<open>df.empty\<close>: some axis has length 0.\<close>

definition empty_frame :: "DataFrame \<Rightarrow> bool" where
  "empty_frame d \<longleftrightarrow> index_len d = 0 \<or> columns d = []"

datatype column_type = Numeric | Categorical | Datetime

text \<open>
  One record of the cleaning report. The source renders each as an f-string; the record
  keeps the values the string is built from.
\<close>

datatype action =
    RemovedDuplicates nat
  | DroppedColumn string rat
  | FilledMedian nat string "rat option"
  | FilledUnknown nat string
  | FilledMode nat string cell

record cleaner =
  df :: DataFrame
  original_shape :: "nat \<times> nat"
  cleaning_report :: "action list"
  column_types :: "(string \<times> column_type) list"

record report =
  original_rows :: nat
  original_cols :: nat
  cleaned_rows :: nat
  cleaned_cols :: nat
  actions :: "action list"
  report_column_types :: "(string \<times> column_type) list"

section \<open>pandas operations used by the Cleaner\<close>

fun dropna :: "'a option list \<Rightarrow> 'a list" where
  "dropna [] = []"
| "dropna (None # xs) = dropna xs"
| "dropna (Some x # xs) = x # dropna xs"

fun isna_count :: "'a option list \<Rightarrow> nat" where
  "isna_count [] = 0"
| "isna_count (None # xs) = Suc (isna_count xs)"
| "isna_count (Some x # xs) = isna_count xs"

text \<open>\<open>series.isna().sum()\<close>\<close>

fun isna_sum :: "series \<Rightarrow> nat" where
  "isna_sum (Int64 xs) = 0"
| "isna_sum (Float64 xs) = isna_count xs"
| "isna_sum (BoolCol xs) = 0"
| "isna_sum (Object xs) = isna_count xs"
| "isna_sum (Datetime64 xs) = isna_count xs"

fun is_numeric_dtype :: "series \<Rightarrow> bool" where
  "is_numeric_dtype (Int64 xs) = True"
| "is_numeric_dtype (Float64 xs) = True"
| "is_numeric_dtype (BoolCol xs) = True"
| "is_numeric_dtype (Object xs) = False"
| "is_numeric_dtype (Datetime64 xs) = False"

fun is_datetime64_any_dtype :: "series \<Rightarrow> bool" where
  "is_datetime64_any_dtype (Datetime64 xs) = True"
| "is_datetime64_any_dtype s = False"

fun fillna :: "'a \<Rightarrow> 'a option list \<Rightarrow> 'a option list" where
  "fillna v [] = []"
| "fillna v (None # xs) = Some v # fillna v xs"
| "fillna v (Some x # xs) = Some x # fillna v xs"

text \<open>
  The median of the values given (pandas has dropped the missing ones): the middle of the
  sorted values, or the mean of the two middle ones; NaN (\<open>None\<close>) when there is none.
\<close>

definition median :: "rat list \<Rightarrow> rat option" where
  "median xs =
     (let ys = sort xs; n = length ys in
      if n = 0 then None
      else if odd n then Some (ys ! (n div 2))
      else Some ((ys ! (n div 2 - 1) + ys ! (n div 2)) / 2))"

fun series_median :: "series \<Rightarrow> rat option" where
  "series_median (Int64 xs) = median (map of_int xs)"
| "series_median (Float64 xs) = median (dropna xs)"
| "series_median (BoolCol xs) = median (map (\<lambda>b. if b then 1 else 0) xs)"
| "series_median s = None"

text \<open>\<open>fillna(median_val)\<close> on a numeric column; filling with NaN changes nothing.\<close>

fun fillna_median :: "rat option \<Rightarrow> series \<Rightarrow> series" where
  "fillna_median (Some m) (Float64 xs) = Float64 (fillna m xs)"
| "fillna_median m s = s"

text \<open>
  \<open>mode()\<close>: the most frequent of the non-missing values, sorted ascending; empty when
  every value is missing.
\<close>

definition mode :: "('a::linorder) option list \<Rightarrow> 'a list" where
  "mode xs =
     (let vs = dropna xs; m = fold max (map (count_list vs) vs) 0
      in sort (remdups (filter (\<lambda>v. count_list vs v = m) vs)))"

text \<open>Boolean-mask row selection \<open>frame[mask]\<close>.\<close>

fun take_mask :: "bool list \<Rightarrow> 'a list \<Rightarrow> 'a list" where
  "take_mask (b # bs) (x # xs) = (if b then x # take_mask bs xs else take_mask bs xs)"
| "take_mask bs xs = []"

fun series_mask :: "bool list \<Rightarrow> series \<Rightarrow> series" where
  "series_mask m (Int64 xs) = Int64 (take_mask m xs)"
| "series_mask m (Float64 xs) = Float64 (take_mask m xs)"
| "series_mask m (BoolCol xs) = BoolCol (take_mask m xs)"
| "series_mask m (Object xs) = Object (take_mask m xs)"
| "series_mask m (Datetime64 xs) = Datetime64 (take_mask m xs)"

definition row_at :: "DataFrame \<Rightarrow> nat \<Rightarrow> cell list" where
  "row_at d i = map (\<lambda>c. cells (snd c) ! i) (columns d)"

definition frame_rows :: "DataFrame \<Rightarrow> cell list list" where
  "frame_rows d = map (row_at d) [0..<index_len d]"

text \<open>\<open>duplicated()\<close>: a row is marked when an earlier row equals it (missing equals missing).\<close>

fun duplicated_from :: "'a list \<Rightarrow> 'a list \<Rightarrow> bool list" where
  "duplicated_from seen [] = []"
| "duplicated_from seen (r # rs) = (r \<in> set seen) # duplicated_from (seen @ [r]) rs"

definition duplicated :: "DataFrame \<Rightarrow> bool list" where
  "duplicated d = duplicated_from [] (frame_rows d)"

text \<open>\<open>drop_duplicates()\<close> returns a copy of an empty frame as it is.\<close>

definition drop_duplicates :: "DataFrame \<Rightarrow> DataFrame" where
  "drop_duplicates d =
     (if empty_frame d then d
      else let keep = map Not (duplicated d)
           in \<lparr>index_len = length (filter id keep),
               columns = map (\<lambda>c. (fst c, series_mask keep (snd c))) (columns d)\<rparr>)"

text \<open>\<open>frame.drop(columns=[col])\<close> and \<open>frame[col] = s\<close> for an existing column.\<close>

definition drop_column :: "string \<Rightarrow> DataFrame \<Rightarrow> DataFrame" where
  "drop_column col d = d\<lparr>columns := filter (\<lambda>c. fst c \<noteq> col) (columns d)\<rparr>"

definition set_column :: "string \<Rightarrow> series \<Rightarrow> DataFrame \<Rightarrow> DataFrame" where
  "set_column col s d = d\<lparr>columns := AList.update col s (columns d)\<rparr>"

text \<open>
  \<open>pd.to_datetime(series, errors='raise')\<close> on an object column is the library's, and is
  a parameter of the Cleaner: it takes the cells of the column and gives \<open>None\<close> when the
  conversion raises, otherwise the converted cells. Nothing is assumed of it: the format
  may be inferred from the whole column, and a present string (\<open>NaT\<close>, the empty string)
  may become a missing timestamp.
\<close>

type_synonym datetime_converter = "string option list \<Rightarrow> int option list option"

section \<open>DataCleaner\<close>

definition init_cleaner :: "DataFrame \<Rightarrow> cleaner" where
  "init_cleaner d =
     \<lparr>df = d, original_shape = (index_len d, length (columns d)),
      cleaning_report = [], column_types = []\<rparr>"

definition remove_duplicates :: "cleaner \<Rightarrow> cleaner" where
  "remove_duplicates st =
     (let len_before = index_len (df st);
          d = drop_duplicates (df st);
          len_after = index_len d
      in if len_before > len_after
         then st\<lparr>df := d, cleaning_report := cleaning_report st @ [RemovedDuplicates (len_before - len_after)]\<rparr>
         else st\<lparr>df := d\<rparr>)"

text \<open>
  The non-numeric branch: fill with the first mode, or with the sentinel when there is no
  mode. \<open>mode()\<close> is empty only when every cell is missing, so the sentinel fill of a
  datetime column gives an object column of sentinels.
\<close>

fun fill_categorical :: "series \<Rightarrow> series \<times> cell option" where
  "fill_categorical (Object xs) =
     (case mode xs of
        [] \<Rightarrow> (Object (fillna ''Unknown'' xs), None)
      | m # ms \<Rightarrow> (Object (fillna m xs), Some (CObj (Some m))))"
| "fill_categorical (Datetime64 xs) =
     (case mode xs of
        [] \<Rightarrow> (Object (map (\<lambda>x. Some ''Unknown'') xs), None)
      | m # ms \<Rightarrow> (Datetime64 (fillna m xs), Some (CDt (Some m))))"
| "fill_categorical s = (s, None)"

text \<open>
  The body of the loop of \<open>_handle_missing_values\<close> for the column named \<open>col\<close>. The
  percentage is computed only when a cell is missing, so in a well-formed frame the row
  count it divides by is positive.
\<close>

definition handle_column :: "string \<Rightarrow> cleaner \<Rightarrow> cleaner" where
  "handle_column col st =
     (case map_of (columns (df st)) col of
        None \<Rightarrow> st
      | Some s \<Rightarrow>
          let missing_count = isna_sum s in
          if missing_count = 0 then st
          else
            let missing_pct = (of_nat missing_count / of_nat (index_len (df st))) * (100::rat) in
            if missing_pct > 50
            then st\<lparr>df := drop_column col (df st),
                    cleaning_report := cleaning_report st @ [DroppedColumn col missing_pct]\<rparr>
            else if is_numeric_dtype s
            then let median_val = series_median s
                 in st\<lparr>df := set_column col (fillna_median median_val s) (df st),
                       cleaning_report := cleaning_report st @ [FilledMedian missing_count col median_val]\<rparr>
            else (case fill_categorical s of
                    (s', None) \<Rightarrow>
                      st\<lparr>df := set_column col s' (df st),
                         cleaning_report := cleaning_report st @ [FilledUnknown missing_count col]\<rparr>
                  | (s', Some mode_val) \<Rightarrow>
                      st\<lparr>df := set_column col s' (df st),
                         cleaning_report := cleaning_report st @ [FilledMode missing_count col mode_val]\<rparr>))"

text \<open>
  What one pass of that body does to the column it visits, when no other column has its
  name: the columns that take its place and the records appended.
\<close>

definition handle_one :: "nat \<Rightarrow> string \<times> series \<Rightarrow> (string \<times> series) list \<times> action list" where
  "handle_one n c =
     (let col = fst c; s = snd c; missing_count = isna_sum s in
      if missing_count = 0 then ([c], [])
      else
        let missing_pct = (of_nat missing_count / of_nat n) * (100::rat) in
        if missing_pct > 50 then ([], [DroppedColumn col missing_pct])
        else if is_numeric_dtype s
        then ([(col, fillna_median (series_median s) s)],
              [FilledMedian missing_count col (series_median s)])
        else (case fill_categorical s of
                (s', None) \<Rightarrow> ([(col, s')], [FilledUnknown missing_count col])
              | (s', Some mode_val) \<Rightarrow> ([(col, s')], [FilledMode missing_count col mode_val])))"

definition handle_missing_values :: "cleaner \<Rightarrow> cleaner" where
  "handle_missing_values st = fold handle_column (map fst (columns (df st))) st"

text \<open>The body of the loop of \<open>_detect_column_types\<close>.\<close>

definition detect_column :: "datetime_converter \<Rightarrow> string \<Rightarrow> cleaner \<Rightarrow> cleaner" where
  "detect_column to_datetime col st =
     (case map_of (columns (df st)) col of
        None \<Rightarrow> st
      | Some s \<Rightarrow>
          if is_numeric_dtype s
          then st\<lparr>column_types := AList.update col Numeric (column_types st)\<rparr>
          else if is_datetime64_any_dtype s
          then st\<lparr>column_types := AList.update col Datetime (column_types st)\<rparr>
          else (case s of
                  Object xs \<Rightarrow>
                    (case to_datetime xs of
                       Some ts \<Rightarrow>
                         st\<lparr>df := set_column col (Datetime64 ts) (df st),
                            column_types := AList.update col Datetime (column_types st)\<rparr>
                     | None \<Rightarrow> st\<lparr>column_types := AList.update col Categorical (column_types st)\<rparr>)
                | _ \<Rightarrow> st\<lparr>column_types := AList.update col Categorical (column_types st)\<rparr>))"

definition detect_column_types :: "datetime_converter \<Rightarrow> cleaner \<Rightarrow> cleaner" where
  "detect_column_types to_datetime st =
     fold (detect_column to_datetime) (map fst (columns (df st))) (st\<lparr>column_types := []\<rparr>)"

definition clean :: "datetime_converter \<Rightarrow> DataFrame \<Rightarrow> DataFrame \<times> report" where
  "clean to_datetime d =
     (let st = detect_column_types to_datetime (handle_missing_values (remove_duplicates (init_cleaner d)))
      in (df st,
          \<lparr>original_rows = fst (original_shape st),
           original_cols = snd (original_shape st),
           cleaned_rows = index_len (df st),
           cleaned_cols = length (columns (df st)),
           actions = cleaning_report st,
           report_column_types = column_types st\<rparr>))"

section \<open>Caller boundary\<close>

datatype http_error = HTTPException nat string

text \<open>
  The validation of \<open>upload_file\<close> after the file is read (it is written to the upload
  folder before): an empty frame is refused with status 400; otherwise the row and column
  counts go into the preview.
\<close>

definition upload_file_validation :: "DataFrame \<Rightarrow> http_error + nat \<times> nat" where
  "upload_file_validation d =
     (if empty_frame d then Inl (HTTPException 400 ''File is empty'')
      else Inr (index_len d, length (columns d)))"

text \<open>
  Step 1 of \<open>analyze_data\<close>, from the frame read from the file to the cleaning report:
  the Cleaner is constructed and run on the frame as read.
\<close>

definition analyze_data_clean :: "datetime_converter \<Rightarrow> DataFrame \<Rightarrow> http_error + DataFrame \<times> report" where
  "analyze_data_clean to_datetime d = Inr (clean to_datetime d)"

section \<open>Statistics bundle\<close>

text \<open>A Python float of the bundle: a rational, or NaN.\<close>

datatype pyfloat = Fl rat | NaN

record overview_rec =
  total_rows :: nat
  total_columns :: nat
  numeric_columns :: nat
  categorical_columns :: nat
  datetime_columns :: nat

record numeric_stats_rec =
  ns_mean :: pyfloat
  ns_median :: pyfloat
  ns_mode :: pyfloat
  ns_std :: pyfloat
  ns_min :: pyfloat
  ns_max :: pyfloat
  ns_q1 :: pyfloat
  ns_q3 :: pyfloat
  ns_sum :: pyfloat
  ns_count :: nat

record categorical_stats_rec =
  unique_values :: nat
  most_common :: string
  most_common_count :: nat
  top_5 :: "(string \<times> nat) list"

record correlation_rec =
  col1 :: string
  col2 :: string
  correlation :: pyfloat

record correlations_rec =
  matrix :: "(string \<times> (string \<times> pyfloat) list) list"
  top_correlations :: "correlation_rec list"

text \<open>The correlations section is the empty dict (\<open>None\<close>) or has both keys.\<close>

record stats_rec =
  overview :: overview_rec
  numeric_stats :: "(string \<times> numeric_stats_rec) list"
  categorical_stats :: "(string \<times> categorical_stats_rec) list"
  correlations :: "correlations_rec option"

section \<open>StatsEngine: correlations\<close>

definition numeric_cols_of :: "(string \<times> column_type) list \<Rightarrow> string list" where
  "numeric_cols_of ct = map fst (filter (\<lambda>c. snd c = Numeric) ct)"

text \<open>
  \<open>df[numeric_cols]\<close> followed by \<open>corr()\<close> needs every listed column to be in the frame
  with a numeric dtype; otherwise the exception handler returns the empty dict.
\<close>

fun select_numeric :: "DataFrame \<Rightarrow> string list \<Rightarrow> series list option" where
  "select_numeric d [] = Some []"
| "select_numeric d (c # cs) =
     (case map_of (columns d) c of
        None \<Rightarrow> None
      | Some s \<Rightarrow>
          if is_numeric_dtype s
          then (case select_numeric d cs of None \<Rightarrow> None | Some ss \<Rightarrow> Some (s # ss))
          else None)"

text \<open>Every column the type map calls Numeric is in the frame, with a numeric dtype.\<close>

definition numeric_typed :: "DataFrame \<Rightarrow> (string \<times> column_type) list \<Rightarrow> bool" where
  "numeric_typed d ct \<longleftrightarrow>
     list_all (\<lambda>c. case map_of (columns d) c of None \<Rightarrow> False | Some s \<Rightarrow> is_numeric_dtype s)
       (numeric_cols_of ct)"

text \<open>
  The sort key \<open>abs(correlation)\<close>, descending: an ascending stable sort on the negated
  key. Every comparison with NaN is false, so where Python's sort leaves a NaN entry is not
  determined by the key; here it counts as the weakest.
\<close>

fun abs_key :: "pyfloat \<Rightarrow> rat" where
  "abs_key (Fl x) = - \<bar>x\<bar>"
| "abs_key NaN = 1"

text \<open>The Pearson coefficient of two columns is the library's; it is a parameter.\<close>

definition get_correlations ::
  "(series \<Rightarrow> series \<Rightarrow> pyfloat) \<Rightarrow> DataFrame \<Rightarrow> (string \<times> column_type) list \<Rightarrow> correlations_rec option" where
  "get_correlations pearson d ct =
     (let numeric_cols = numeric_cols_of ct in
      if length numeric_cols < 2 then None
      else (case select_numeric d numeric_cols of
              None \<Rightarrow> None
            | Some ss \<Rightarrow>
                let k = length numeric_cols;
                    corr_matrix = (\<lambda>i j. pearson (ss ! i) (ss ! j));
                    correlations_list =
                      concat (map (\<lambda>i. map (\<lambda>j. \<lparr>col1 = numeric_cols ! i, col2 = numeric_cols ! j,
                                                   correlation = corr_matrix i j\<rparr>) [i + 1..<k]) [0..<k]);
                    sorted_list = sort_key (\<lambda>x. abs_key (correlation x)) correlations_list
                in Some \<lparr>matrix = map (\<lambda>i. (numeric_cols ! i,
                                          map (\<lambda>j. (numeric_cols ! j, corr_matrix i j)) [0..<k])) [0..<k],
                         top_correlations = take 5 sorted_list\<rparr>))"

text \<open>\<open>correlations.get('top_correlations', [])\<close>\<close>

definition get_top_correlations :: "correlations_rec option \<Rightarrow> correlation_rec list" where
  "get_top_correlations c = (case c of None \<Rightarrow> [] | Some r \<Rightarrow> top_correlations r)"

section \<open>InsightEngine\<close>

datatype py_error = ZeroDivisionError | KeyError string | TypeError

text \<open>A numpy double: a finite value, held exactly, an infinity, or NaN.\<close>

datatype np_float = Finite rat | PosInf | NegInf | NotANumber

datatype direction = Upward | Downward

datatype relationship = StrongPositive | StrongNegative

text \<open>
  An insight is an f-string in the source; the constructor is the rule's sentence and the
  arguments are the values formatted into it, in the order they appear.
\<close>

datatype insight =
    HighVariability string pyfloat pyfloat pyfloat
  | ConsistentValues string pyfloat pyfloat
  | Dominates string string rat
  | UniqueValues string nat string rat
  | TrendInsight string direction np_float
  | CorrelationInsight relationship pyfloat string string
  | DataQuality nat nat

fun is_data_quality :: "insight \<Rightarrow> bool" where
  "is_data_quality (DataQuality r c) = True"
| "is_data_quality i = False"

text \<open>The column a numeric-variability observation is about.\<close>

fun variability_column :: "insight \<Rightarrow> string option" where
  "variability_column (HighVariability c cv lo hi) = Some c"
| "variability_column (ConsistentValues c m s) = Some c"
| "variability_column i = None"

fun trend_column :: "insight \<Rightarrow> string option" where
  "trend_column (TrendInsight c t m) = Some c"
| "trend_column i = None"

text \<open>Float comparison with a constant (false on NaN) and arithmetic.\<close>

fun fl_gt :: "pyfloat \<Rightarrow> rat \<Rightarrow> bool" where
  "fl_gt (Fl x) c = (x > c)"
| "fl_gt NaN c = False"

fun fl_abs :: "pyfloat \<Rightarrow> pyfloat" where
  "fl_abs (Fl x) = Fl \<bar>x\<bar>"
| "fl_abs NaN = NaN"

fun fl_times :: "pyfloat \<Rightarrow> rat \<Rightarrow> pyfloat" where
  "fl_times (Fl x) c = Fl (x * c)"
| "fl_times NaN c = NaN"

text \<open>Division of two Python floats raises on a zero divisor.\<close>

fun py_truediv :: "pyfloat \<Rightarrow> pyfloat \<Rightarrow> py_error + pyfloat" where
  "py_truediv a (Fl y) =
     (if y = 0 then Inl ZeroDivisionError
      else (case a of Fl x \<Rightarrow> Inr (Fl (x / y)) | NaN \<Rightarrow> Inr NaN))"
| "py_truediv a NaN = Inr NaN"

fun analyze_numeric_columns_loop ::
  "(string \<times> numeric_stats_rec) list \<Rightarrow> insight list \<Rightarrow> py_error + insight list" where
  "analyze_numeric_columns_loop [] insights = Inr insights"
| "analyze_numeric_columns_loop ((col, col_stats) # rest) insights =
     (let max_val = ns_max col_stats;
          min_val = ns_min col_stats;
          mean_val = ns_mean col_stats;
          std_val = ns_std col_stats
      in if fl_gt std_val 0
         then (case py_truediv std_val mean_val of
                 Inl e \<Rightarrow> Inl e
               | Inr q \<Rightarrow>
                   let cv = fl_times q 100 in
                   if fl_gt cv 50
                   then analyze_numeric_columns_loop rest
                          (insights @ [HighVariability col cv min_val max_val])
                   else analyze_numeric_columns_loop rest
                          (insights @ [ConsistentValues col mean_val std_val]))
         else analyze_numeric_columns_loop rest insights)"

definition analyze_numeric_columns :: "stats_rec \<Rightarrow> insight list \<Rightarrow> py_error + insight list" where
  "analyze_numeric_columns stats insights =
     analyze_numeric_columns_loop (numeric_stats stats) insights"

fun analyze_categorical_columns_loop ::
  "nat \<Rightarrow> (string \<times> categorical_stats_rec) list \<Rightarrow> insight list \<Rightarrow> py_error + insight list" where
  "analyze_categorical_columns_loop rows [] insights = Inr insights"
| "analyze_categorical_columns_loop rows ((col, col_stats) # rest) insights =
     (if rows = 0 then Inl ZeroDivisionError
      else
        let percentage = (of_nat (most_common_count col_stats) / of_nat rows) * (100::rat) in
        if percentage > 50
        then analyze_categorical_columns_loop rows rest
               (insights @ [Dominates (most_common col_stats) col percentage])
        else analyze_categorical_columns_loop rows rest
               (insights @ [UniqueValues col (unique_values col_stats) (most_common col_stats) percentage]))"

definition analyze_categorical_columns :: "stats_rec \<Rightarrow> insight list \<Rightarrow> py_error + insight list" where
  "analyze_categorical_columns stats insights =
     analyze_categorical_columns_loop (total_rows (overview stats)) (categorical_stats stats) insights"

text \<open>
  The slices \<open>values[:n]\<close> and \<open>values[n:]\<close> of a column.
\<close>

fun series_take :: "nat \<Rightarrow> series \<Rightarrow> series" where
  "series_take n (Int64 xs) = Int64 (take n xs)"
| "series_take n (Float64 xs) = Float64 (take n xs)"
| "series_take n (BoolCol xs) = BoolCol (take n xs)"
| "series_take n (Object xs) = Object (take n xs)"
| "series_take n (Datetime64 xs) = Datetime64 (take n xs)"

fun series_drop :: "nat \<Rightarrow> series \<Rightarrow> series" where
  "series_drop n (Int64 xs) = Int64 (drop n xs)"
| "series_drop n (Float64 xs) = Float64 (drop n xs)"
| "series_drop n (BoolCol xs) = BoolCol (drop n xs)"
| "series_drop n (Object xs) = Object (drop n xs)"
| "series_drop n (Datetime64 xs) = Datetime64 (drop n xs)"

text \<open>
  The arithmetic of the trend rule is done in numpy doubles: \<open>np.mean\<close> of a slice of a
  numeric column, then a subtraction, a division and a multiplication, each rounded by the
  platform and able to overflow. These four operations are parameters of the engine. The
  comparisons with 0 and 10 and the absolute value are exact on doubles and are defined.
\<close>

record np_arith =
  np_mean :: "series \<Rightarrow> np_float"
  np_sub :: "np_float \<Rightarrow> np_float \<Rightarrow> np_float"
  np_div :: "np_float \<Rightarrow> np_float \<Rightarrow> np_float"
  np_mul :: "np_float \<Rightarrow> np_float \<Rightarrow> np_float"

fun np_gt :: "np_float \<Rightarrow> rat \<Rightarrow> bool" where
  "np_gt (Finite x) c = (x > c)"
| "np_gt PosInf c = True"
| "np_gt NegInf c = False"
| "np_gt NotANumber c = False"

fun np_abs :: "np_float \<Rightarrow> np_float" where
  "np_abs (Finite x) = Finite \<bar>x\<bar>"
| "np_abs PosInf = PosInf"
| "np_abs NegInf = PosInf"
| "np_abs NotANumber = NotANumber"

text \<open>The body of the trend loop for a column of at least 3 values.\<close>

definition trend_of_values :: "np_arith \<Rightarrow> string \<Rightarrow> series \<Rightarrow> insight list" where
  "trend_of_values ar col vals =
     (let mid_point = series_len vals div 2;
          first_half_mean = np_mean ar (series_take mid_point vals);
          second_half_mean = np_mean ar (series_drop mid_point vals)
      in if np_gt first_half_mean 0
         then let change_pct = np_mul ar (np_div ar (np_sub ar second_half_mean first_half_mean)
                                             first_half_mean) (Finite 100)
              in if np_gt (np_abs change_pct) 10
                 then [TrendInsight col (if np_gt change_pct 0 then Upward else Downward) (np_abs change_pct)]
                 else []
         else [])"

text \<open>\<open>np.mean\<close> raises on the strings and timestamps of a column that is not numeric.\<close>

fun analyze_trends_loop ::
  "np_arith \<Rightarrow> DataFrame \<Rightarrow> string list \<Rightarrow> insight list \<Rightarrow> py_error + insight list" where
  "analyze_trends_loop ar d [] insights = Inr insights"
| "analyze_trends_loop ar d (col # rest) insights =
     (case map_of (columns d) col of
        None \<Rightarrow> Inl (KeyError col)
      | Some s \<Rightarrow>
          if series_len s < 3 then analyze_trends_loop ar d rest insights
          else if is_numeric_dtype s
          then analyze_trends_loop ar d rest (insights @ trend_of_values ar col s)
          else Inl TypeError)"

definition analyze_trends ::
  "np_arith \<Rightarrow> DataFrame \<Rightarrow> (string \<times> column_type) list \<Rightarrow> insight list \<Rightarrow> py_error + insight list" where
  "analyze_trends ar d ct insights = analyze_trends_loop ar d (take 2 (numeric_cols_of ct)) insights"

definition analyze_correlations :: "stats_rec \<Rightarrow> insight list \<Rightarrow> py_error + insight list" where
  "analyze_correlations stats insights =
     (case get_top_correlations (correlations stats) of
        [] \<Rightarrow> Inr insights
      | strongest # others \<Rightarrow>
          let corr_val = correlation strongest in
          if fl_gt (fl_abs corr_val) (7 / 10)
          then Inr (insights @ [CorrelationInsight
                       (if fl_gt corr_val 0 then StrongPositive else StrongNegative)
                       corr_val (col1 strongest) (col2 strongest)])
          else Inr insights)"

definition analyze_data_quality :: "stats_rec \<Rightarrow> insight list \<Rightarrow> py_error + insight list" where
  "analyze_data_quality stats insights =
     Inr (insights @ [DataQuality (total_rows (overview stats)) (total_columns (overview stats))])"

text \<open>Sequencing: an exception in one rule ends the run.\<close>

definition and_then :: "py_error + 'a \<Rightarrow> ('a \<Rightarrow> py_error + 'b) \<Rightarrow> py_error + 'b" where
  "and_then r f = (case r of Inl e \<Rightarrow> Inl e | Inr x \<Rightarrow> f x)"

text \<open>The first four rules, run on the engine's empty list.\<close>

definition rules_before_quality ::
  "np_arith \<Rightarrow> DataFrame \<Rightarrow> (string \<times> column_type) list \<Rightarrow> stats_rec \<Rightarrow> py_error + insight list" where
  "rules_before_quality ar d ct stats =
     and_then (and_then (and_then (analyze_numeric_columns stats [])
       (analyze_categorical_columns stats)) (analyze_trends ar d ct)) (analyze_correlations stats)"

definition generate_insights ::
  "np_arith \<Rightarrow> DataFrame \<Rightarrow> (string \<times> column_type) list \<Rightarrow> stats_rec \<Rightarrow> py_error + insight list" where
  "generate_insights ar d ct stats =
     and_then (and_then (rules_before_quality ar d ct stats) (analyze_data_quality stats))
       (\<lambda>insights. Inr (take 7 insights))"

section \<open>Example inputs\<close>

text \<open>
  The conversion on tables without date-like text: it raises as soon as a value is
  present, and converts a column without any present value to missing timestamps.
\<close>

definition no_dates :: datetime_converter where
  "no_dates xs = (if dropna xs = [] then Some (map (\<lambda>x. None) xs) else None)"

text \<open>A file with a header line and no data line: every column is an empty object column.\<close>

definition header_only :: DataFrame where
  "header_only = \<lparr>index_len = 0, columns = [(''id'', Object []), (''name'', Object [])]\<rparr>"


text \<open>Column a is missing in three of four rows, and in one of the two distinct rows.\<close>

definition repeated_rows :: DataFrame where
  "repeated_rows = \<lparr>index_len = 4,
     columns = [(''a'', Float64 [None, None, None, Some 1]),
                (''b'', Object [Some ''x'', Some ''x'', Some ''x'', Some ''y''])]\<rparr>"

text \<open>Column e has no value at all.\<close>

definition with_empty_col :: DataFrame where
  "with_empty_col = \<lparr>index_len = 3,
     columns = [(''id'', Int64 [1, 2, 3]), (''e'', Object [None, None, None])]\<rparr>"

text \<open>Column v misses one value of four.\<close>

definition one_gap :: DataFrame where
  "one_gap = \<lparr>index_len = 4,
     columns = [(''id'', Int64 [1, 2, 3, 4]), (''v'', Float64 [Some 10, None, Some 30, Some 20])]\<rparr>"

text \<open>The statistics of a column 5, 5, 5 and of a column 1, 2, 3.\<close>

definition constant_stats :: numeric_stats_rec where
  "constant_stats = \<lparr>ns_mean = Fl 5, ns_median = Fl 5, ns_mode = Fl 5, ns_std = Fl 0,
     ns_min = Fl 5, ns_max = Fl 5, ns_q1 = Fl 5, ns_q3 = Fl 5, ns_sum = Fl 15, ns_count = 3\<rparr>"

definition spread_stats :: numeric_stats_rec where
  "spread_stats = \<lparr>ns_mean = Fl 2, ns_median = Fl 2, ns_mode = Fl 1, ns_std = Fl 1,
     ns_min = Fl 1, ns_max = Fl 3, ns_q1 = Fl (3 / 2), ns_q3 = Fl (5 / 2), ns_sum = Fl 6, ns_count = 3\<rparr>"

text \<open>The bundle of a table with the constant column x and the column y = 1, 2, 3.\<close>

definition constant_bundle :: stats_rec where
  "constant_bundle = \<lparr>overview = \<lparr>total_rows = 3, total_columns = 2, numeric_columns = 2,
        categorical_columns = 0, datetime_columns = 0\<rparr>,
     numeric_stats = [(''x'', constant_stats), (''y'', spread_stats)],
     categorical_stats = [],
     correlations = Some \<lparr>matrix = [(''x'', [(''x'', NaN), (''y'', NaN)]), (''y'', [(''x'', NaN), (''y'', Fl 1)])],
                           top_correlations = [\<lparr>col1 = ''x'', col2 = ''y'', correlation = NaN\<rparr>]\<rparr>\<rparr>"

text \<open>
  Arithmetic without rounding, for the examples. In them every value, sum, mean and
  quotient is a small integer or a half, which a double holds exactly, so this arithmetic
  gives there what the doubles give. It is defined on finite values and non-zero divisors
  (anything else gives NaN, which the examples do not reach); a missing cell makes the
  mean NaN.
\<close>

fun exact_values :: "series \<Rightarrow> rat list option" where
  "exact_values (Int64 xs) = Some (map of_int xs)"
| "exact_values (Float64 xs) = (if isna_count xs = 0 then Some (dropna xs) else None)"
| "exact_values (BoolCol xs) = Some (map (\<lambda>b. if b then 1 else 0) xs)"
| "exact_values s = None"

definition exact_mean :: "series \<Rightarrow> np_float" where
  "exact_mean s =
     (case exact_values s of
        None \<Rightarrow> NotANumber
      | Some xs \<Rightarrow> if xs = [] then NotANumber else Finite (sum_list xs / of_nat (length xs)))"

fun exact_sub :: "np_float \<Rightarrow> np_float \<Rightarrow> np_float" where
  "exact_sub (Finite x) (Finite y) = Finite (x - y)"
| "exact_sub a b = NotANumber"

fun exact_div :: "np_float \<Rightarrow> np_float \<Rightarrow> np_float" where
  "exact_div (Finite x) (Finite y) = (if y = 0 then NotANumber else Finite (x / y))"
| "exact_div a b = NotANumber"

fun exact_mul :: "np_float \<Rightarrow> np_float \<Rightarrow> np_float" where
  "exact_mul (Finite x) (Finite y) = Finite (x * y)"
| "exact_mul a b = NotANumber"

definition exact_arith :: np_arith where
  "exact_arith = \<lparr>np_mean = exact_mean, np_sub = exact_sub, np_div = exact_div, np_mul = exact_mul\<rparr>"

text \<open>A column that falls from -1 to -5, and one that rises from 1 to 5.\<close>

definition falling_negative :: DataFrame where
  "falling_negative = \<lparr>index_len = 4, columns = [(''x'', Int64 [-1, -1, -5, -5])]\<rparr>"

definition rising :: DataFrame where
  "rising = \<lparr>index_len = 4, columns = [(''x'', Int64 [1, 1, 5, 5])]\<rparr>"

text \<open>Seven columns 1, 2, 3 with their type map and bundle; every coefficient is 1.\<close>

definition seven_names :: "string list" where
  "seven_names = [''c1'', ''c2'', ''c3'', ''c4'', ''c5'', ''c6'', ''c7'']"

definition seven_frame :: DataFrame where
  "seven_frame = \<lparr>index_len = 3, columns = map (\<lambda>n. (n, Int64 [1, 2, 3])) seven_names\<rparr>"

definition seven_types :: "(string \<times> column_type) list" where
  "seven_types = map (\<lambda>n. (n, Numeric)) seven_names"

definition seven_bundle :: stats_rec where
  "seven_bundle = \<lparr>overview = \<lparr>total_rows = 3, total_columns = 7, numeric_columns = 7,
        categorical_columns = 0, datetime_columns = 0\<rparr>,
     numeric_stats = map (\<lambda>n. (n, spread_stats)) seven_names,
     categorical_stats = [],
     correlations = get_correlations (\<lambda>a b. Fl 1) seven_frame seven_types\<rparr>"

text \<open>The bundle of the one-column table \<open>rising\<close>.\<close>

definition rising_bundle :: stats_rec where
  "rising_bundle = \<lparr>overview = \<lparr>total_rows = 4, total_columns = 1, numeric_columns = 1,
        categorical_columns = 0, datetime_columns = 0\<rparr>,
     numeric_stats = [], categorical_stats = [], correlations = None\<rparr>"

section \<open>The missing-value loop, column by column\<close>

lemma map_of_mid: "col \<notin> fst ` set pre \<Longrightarrow> map_of (pre @ (col, s) # rest) col = Some s"
  by (induction pre) auto

lemma update_mid:
  "col \<notin> fst ` set pre \<Longrightarrow> AList.update col v (pre @ (col, s) # rest) = pre @ (col, v) # rest"
  by (induction pre) auto

lemma filter_names_id: "col \<notin> fst ` set xs \<Longrightarrow> filter (\<lambda>c. fst c \<noteq> col) xs = xs"
  by (induction xs) auto

lemma filter_mid:
  "col \<notin> fst ` set pre \<Longrightarrow> col \<notin> fst ` set rest \<Longrightarrow>
   filter (\<lambda>c. fst c \<noteq> col) (pre @ (col, s) # rest) = pre @ rest"
  by (simp add: filter_names_id)

lemma handle_one_names: "fst ` set (fst (handle_one n (col, s))) \<subseteq> {col}"
proof -
  obtain s' m where fc: "fill_categorical s = (s', m)" by (cases "fill_categorical s")
  show ?thesis using fc by (cases m) (simp_all add: handle_one_def Let_def)
qed

lemma handle_one_distinct: "distinct (map fst (fst (handle_one n (col, s))))"
proof -
  obtain s' m where fc: "fill_categorical s = (s', m)" by (cases "fill_categorical s")
  show ?thesis using fc by (cases m) (simp_all add: handle_one_def Let_def)
qed

lemma handle_column_step:
  assumes "columns (df st) = pre @ (col, s) # rest"
    and "col \<notin> fst ` set pre" and "col \<notin> fst ` set rest"
  shows "columns (df (handle_column col st)) = pre @ fst (handle_one (index_len (df st)) (col, s)) @ rest
       \<and> cleaning_report (handle_column col st) =
           cleaning_report st @ snd (handle_one (index_len (df st)) (col, s))
       \<and> index_len (df (handle_column col st)) = index_len (df st)"
proof -
  have look: "map_of (columns (df st)) col = Some s"
    using assms map_of_mid[of col pre s rest] by simp
  have upd: "\<And>v. AList.update col v (columns (df st)) = pre @ (col, v) # rest"
    using assms update_mid[of col pre _ s rest] by simp
  have filt: "filter (\<lambda>c. fst c \<noteq> col) (columns (df st)) = pre @ rest"
    using assms filter_mid[of col pre rest s] by simp
  obtain s' m where fc: "fill_categorical s = (s', m)" by (cases "fill_categorical s")
  show ?thesis
  proof (cases m)
    case None
    with look fc upd filt show ?thesis
      by (simp add: handle_column_def handle_one_def Let_def drop_column_def set_column_def)
         (simp add: assms(1))
  next
    case (Some v)
    with look fc upd filt show ?thesis
      by (simp add: handle_column_def handle_one_def Let_def drop_column_def set_column_def)
         (simp add: assms(1))
  qed
qed

lemma handle_fold:
  assumes "distinct (map fst (pre @ todo))" and "columns (df st) = pre @ todo"
  shows "columns (df (fold handle_column (map fst todo) st)) =
           pre @ concat (map (\<lambda>c. fst (handle_one (index_len (df st)) c)) todo)
       \<and> cleaning_report (fold handle_column (map fst todo) st) =
           cleaning_report st @ concat (map (\<lambda>c. snd (handle_one (index_len (df st)) c)) todo)
       \<and> index_len (df (fold handle_column (map fst todo) st)) = index_len (df st)"
  using assms
proof (induction todo arbitrary: pre st)
  case Nil
  then show ?case by simp
next
  case (Cons c todo)
  obtain col s where c: "c = (col, s)" by (cases c)
  let ?n = "index_len (df st)"
  let ?st = "handle_column col st"
  let ?h = "fst (handle_one ?n (col, s))"
  from Cons.prems c have notin: "col \<notin> fst ` set pre" "col \<notin> fst ` set todo"
    by auto
  from Cons.prems c have cols: "columns (df st) = pre @ (col, s) # todo" by simp
  note step = handle_column_step[OF cols notin]
  have sub: "fst ` set ?h \<subseteq> {col}" by (rule handle_one_names)
  have dh: "distinct (map fst ?h)" by (rule handle_one_distinct)
  have d: "distinct (map fst ((pre @ ?h) @ todo))"
    using Cons.prems(1) c sub dh notin by auto
  have cs: "columns (df ?st) = (pre @ ?h) @ todo" using step by simp
  from Cons.IH[OF d cs] step c show ?case by simp
qed

lemma handle_missing_values_result:
  assumes "distinct (map fst (columns (df st)))"
  shows "columns (df (handle_missing_values st)) =
           concat (map (\<lambda>c. fst (handle_one (index_len (df st)) c)) (columns (df st)))
       \<and> cleaning_report (handle_missing_values st) =
           cleaning_report st @ concat (map (\<lambda>c. snd (handle_one (index_len (df st)) c)) (columns (df st)))
       \<and> index_len (df (handle_missing_values st)) = index_len (df st)"
  using handle_fold[of "[]" "columns (df st)" st] assms
  by (simp add: handle_missing_values_def)

section \<open>Properties of the correlation list\<close>

lemma sum_list_upt_diff: "sum_list (map (\<lambda>i. k - Suc i) [0..<k]) = k choose 2"
proof -
  have "sum_list (map (\<lambda>i. k - Suc i) [0..<k]) = (\<Sum>i<k. k - Suc i)"
    by (simp add: sum_list_sum_nth atLeast0LessThan)
  also have "\<dots> = (\<Sum>i<k. i)"
    by (rule sum.nat_diff_reindex)
  also have "\<dots> = k choose 2"
    by (induction k) (auto simp: numeral_2_eq_2)
  finally show ?thesis .
qed

lemma pairs_length:
  "length (concat (map (\<lambda>i. map (f i) [Suc i..<k]) [0..<k])) = k choose 2"
  by (simp add: length_concat comp_def sum_list_upt_diff)

lemma get_correlations_length:
  assumes "select_numeric d (numeric_cols_of ct) = Some ss"
  shows "length (get_top_correlations (get_correlations pearson d ct)) =
         min 5 (length (numeric_cols_of ct) choose 2)"
proof (cases "length (numeric_cols_of ct) < 2")
  case True
  then show ?thesis by (simp add: get_correlations_def get_top_correlations_def binomial_eq_0)
next
  case False
  with assms show ?thesis
    by (simp add: get_correlations_def get_top_correlations_def Let_def pairs_length min.commute)
qed

section \<open>Deduplication\<close>

lemma drop_duplicates_names: "map fst (columns (drop_duplicates d)) = map fst (columns d)"
  by (simp add: drop_duplicates_def Let_def comp_def)

lemma take_mask_length:
  "length m = length xs \<Longrightarrow> length (take_mask m xs) = length (filter id m)"
  by (induction m xs rule: take_mask.induct) auto

lemma series_mask_len:
  "length m = series_len s \<Longrightarrow> series_len (series_mask m s) = length (filter id m)"
  by (cases s) (simp_all add: series_len_def take_mask_length)

lemma duplicated_from_length: "length (duplicated_from seen rs) = length rs"
  by (induction rs arbitrary: seen) auto

lemma duplicated_length: "length (duplicated d) = index_len d"
  by (simp add: duplicated_def duplicated_from_length frame_rows_def)

lemma wf_drop_duplicates: "wf_frame d \<Longrightarrow> wf_frame (drop_duplicates d)"
  by (auto simp: wf_frame_def drop_duplicates_def Let_def comp_def list_all_iff
      series_mask_len duplicated_length)



lemma isna_count_le: "isna_count ys \<le> length ys"
  by (induction ys rule: isna_count.induct) auto

lemma all_missing_take_mask:
  "isna_count xs = length xs \<Longrightarrow> isna_count (take_mask m xs) = length (take_mask m xs)"
proof (induction m xs rule: take_mask.induct)
  case (1 b bs x xs)
  with isna_count_le[of xs] show ?case by (cases x) auto
qed auto

lemma first_row_kept:
  "0 < index_len d \<Longrightarrow> 0 < length (filter id (map Not (duplicated d)))"
proof -
  assume "0 < index_len d"
  then obtain r rs where "frame_rows d = r # rs"
    by (cases "frame_rows d") (auto simp: frame_rows_def)
  then show ?thesis by (simp add: duplicated_def)
qed

lemma drop_duplicates_rows_pos: "0 < index_len d \<Longrightarrow> 0 < index_len (drop_duplicates d)"
  using first_row_kept[of d] by (simp add: drop_duplicates_def Let_def)

section \<open>Type detection\<close>

lemma update_set_subset: "set (AList.update k v al) \<subseteq> insert (k, v) (set al)"
  by (induction al) auto

lemma map_of_Some_in_names: "map_of al k = Some v \<Longrightarrow> k \<in> fst ` set al"
  by (metis domI dom_map_of_conv_image_fst)

lemma detect_column_names:
  "map fst (columns (df (detect_column conv col st))) = map fst (columns (df st))"
  by (auto simp: detect_column_def set_column_def update_keys map_of_Some_in_names
      split: option.split series.split)

lemma detect_column_keys:
  "fst ` set (column_types (detect_column conv col st)) =
     (if col \<in> fst ` set (columns (df st)) then insert col (fst ` set (column_types st))
      else fst ` set (column_types st))"
proof (cases "map_of (columns (df st)) col")
  case None
  then have "col \<notin> fst ` set (columns (df st))" by (simp add: map_of_eq_None_iff)
  with None show ?thesis by (simp add: detect_column_def)
next
  case (Some s)
  then have "col \<in> fst ` set (columns (df st))" by (rule map_of_Some_in_names)
  with Some show ?thesis
    by (simp add: detect_column_def dom_update split: option.split series.split)
qed

lemma detect_column_distinct:
  "distinct (map fst (column_types st)) \<Longrightarrow>
   distinct (map fst (column_types (detect_column conv col st)))"
  by (simp add: detect_column_def distinct_update split: option.split series.split)

lemma detect_column_report:
  "cleaning_report (detect_column conv col st) = cleaning_report st"
  by (simp add: detect_column_def split: option.split series.split)

lemma detect_column_index_len:
  "index_len (df (detect_column conv col st)) = index_len (df st)"
  by (simp add: detect_column_def set_column_def split: option.split series.split)

lemma detect_fold:
  "map fst (columns (df (fold (detect_column conv) ns st))) = map fst (columns (df st))
 \<and> fst ` set (column_types (fold (detect_column conv) ns st)) =
     fst ` set (column_types st) \<union> (set ns \<inter> fst ` set (columns (df st)))
 \<and> (distinct (map fst (column_types st)) \<longrightarrow>
        distinct (map fst (column_types (fold (detect_column conv) ns st))))
 \<and> cleaning_report (fold (detect_column conv) ns st) = cleaning_report st
 \<and> index_len (df (fold (detect_column conv) ns st)) = index_len (df st)"
proof (induction ns arbitrary: st)
  case Nil
  show ?case by simp
next
  case (Cons n ns)
  have names: "fst ` set (columns (df (detect_column conv n st))) = fst ` set (columns (df st))"
    using detect_column_names[of conv n st] by (metis set_map)
  show ?case
    using Cons.IH[of "detect_column conv n st"] names
    by (auto simp: detect_column_names detect_column_keys detect_column_distinct
        detect_column_report detect_column_index_len)
qed

section \<open>What the loops leave in the frame\<close>

lemma handle_concat_names:
  "fst ` set (concat (map (\<lambda>c. fst (handle_one n c)) cols)) \<subseteq> fst ` set cols"
proof
  fix x
  assume "x \<in> fst ` set (concat (map (\<lambda>c. fst (handle_one n c)) cols))"
  then obtain c where c: "c \<in> set cols" and x: "x \<in> fst ` set (fst (handle_one n c))"
    by auto
  obtain col s where cs: "c = (col, s)" by (cases c)
  from x cs handle_one_names[of n col s] have "x = col" by blast
  with c cs show "x \<in> fst ` set cols" by force
qed

lemma map_of_notin: "k \<notin> fst ` set al \<Longrightarrow> map_of al k = None"
  by (simp add: map_of_eq_None_iff)

lemma handle_concat_lookup:
  assumes "distinct (map fst cols)" and "(col, s) \<in> set cols"
  shows "map_of (concat (map (\<lambda>c. fst (handle_one n c)) cols)) col =
         map_of (fst (handle_one n (col, s))) col"
  using assms
proof (induction cols)
  case Nil
  then show ?case by simp
next
  case (Cons c cols)
  obtain c' s' where c: "c = (c', s')" by (cases c)
  let ?rest = "concat (map (\<lambda>c. fst (handle_one n c)) cols)"
  show ?case
  proof (cases "c' = col")
    case True
    with Cons.prems c have notin: "col \<notin> fst ` set cols" by auto
    with Cons.prems c True have eq: "s' = s" by force
    have "col \<notin> fst ` set ?rest" using handle_concat_names[of n cols] notin by blast
    then have "map_of ?rest col = None" by (rule map_of_notin)
    with c True eq show ?thesis by (simp add: map_add_def split: option.split)
  next
    case False
    with Cons.prems c have mem: "(col, s) \<in> set cols" by auto
    have "col \<notin> fst ` set (fst (handle_one n (c', s')))"
      using handle_one_names[of n c' s'] False by blast
    then have "map_of (fst (handle_one n (c', s'))) col = None" by (rule map_of_notin)
    with Cons.IH[OF _ mem] Cons.prems(1) c show ?thesis by (simp add: map_add_def)
  qed
qed



text \<open>The state after the first two steps, and the parts of \<open>clean\<close>.\<close>

lemma remove_duplicates_df: "df (remove_duplicates st) = drop_duplicates (df st)"
  by (simp add: remove_duplicates_def Let_def)

lemma clean_columns_names:
  "wf_frame d \<Longrightarrow>
   map fst (columns (fst (clean conv d))) =
   map fst (concat (map (\<lambda>c. fst (handle_one (index_len (drop_duplicates d)) c))
                        (columns (drop_duplicates d))))"
proof -
  assume wf: "wf_frame d"
  let ?st1 = "remove_duplicates (init_cleaner d)"
  have d1: "df ?st1 = drop_duplicates d" by (simp add: remove_duplicates_df init_cleaner_def)
  have dist: "distinct (map fst (columns (df ?st1)))"
    using wf by (simp add: d1 drop_duplicates_names wf_frame_def)
  from handle_missing_values_result[OF dist] detect_fold[of conv _ "(handle_missing_values ?st1)\<lparr>column_types := []\<rparr>"]
  show ?thesis by (simp add: clean_def Let_def detect_column_types_def d1)
qed


lemma clean_type_keys:
  "fst ` set (report_column_types (snd (clean conv d))) = fst ` set (columns (fst (clean conv d)))
   \<and> distinct (map fst (report_column_types (snd (clean conv d))))"
proof -
  let ?st2 = "(handle_missing_values (remove_duplicates (init_cleaner d)))\<lparr>column_types := []\<rparr>"
  from detect_fold[of conv "map fst (columns (df ?st2))" ?st2]
  show ?thesis
    by (simp add: clean_def Let_def detect_column_types_def) (metis set_map)
qed

section \<open>Imputation\<close>









section \<open>The report of a run\<close>

lemma remove_duplicates_report:
  "cleaning_report (remove_duplicates (init_cleaner d)) =
     (if index_len (drop_duplicates d) < index_len d
      then [RemovedDuplicates (index_len d - index_len (drop_duplicates d))] else [])"
  by (simp add: remove_duplicates_def init_cleaner_def Let_def)

lemma clean_actions:
  assumes "wf_frame d"
  shows "actions (snd (clean conv d)) =
           cleaning_report (remove_duplicates (init_cleaner d)) @
           concat (map (\<lambda>c. snd (handle_one (index_len (drop_duplicates d)) c))
                       (columns (drop_duplicates d)))"
proof -
  let ?st1 = "remove_duplicates (init_cleaner d)"
  have d1: "df ?st1 = drop_duplicates d" by (simp add: remove_duplicates_df init_cleaner_def)
  have dist: "distinct (map fst (columns (df ?st1)))"
    using assms by (simp add: d1 drop_duplicates_names wf_frame_def)
  from handle_missing_values_result[OF dist]
    detect_fold[of conv _ "(handle_missing_values ?st1)\<lparr>column_types := []\<rparr>"]
  show ?thesis by (simp add: clean_def Let_def detect_column_types_def d1)
qed



section \<open>Claims about the Cleaner\<close>

text \<open>
  C10. After a run of the Cleaner the keys of the type map are exactly the columns of the
  cleaned frame, no key occurs twice, and every column has exactly one type, one of
  Numeric, Categorical and Datetime.
\<close>

theorem type_map_matches_columns:
  "set (map fst (report_column_types (snd (clean conv d)))) =
     set (map fst (columns (fst (clean conv d))))
   \<and> distinct (map fst (report_column_types (snd (clean conv d))))
   \<and> (\<forall>col \<in> set (map fst (columns (fst (clean conv d)))).
         \<exists>!t. t \<in> {Numeric, Categorical, Datetime}
               \<and> (col, t) \<in> set (report_column_types (snd (clean conv d))))"
proof -
  let ?ct = "report_column_types (snd (clean conv d))"
  from clean_type_keys[of conv d]
  have keys: "fst ` set ?ct = fst ` set (columns (fst (clean conv d)))"
    and dist: "distinct (map fst ?ct)" by simp_all
  have "\<exists>!t. t \<in> {Numeric, Categorical, Datetime} \<and> (col, t) \<in> set ?ct"
    if "col \<in> fst ` set ?ct" for col
  proof -
    from that obtain t where t: "(col, t) \<in> set ?ct" by auto
    have all: "t \<in> {Numeric, Categorical, Datetime}" by (cases t) auto
    from dist t have "t' = t" if "(col, t') \<in> set ?ct" for t'
      using that by (meson eq_key_imp_eq_value)
    with t all show ?thesis by blast
  qed
  with keys dist show ?thesis by simp
qed

theorem type_map_matches_columns_witness:
  "''v'' \<in> set (map fst (columns (fst (clean no_dates one_gap))))
   \<and> (''v'', Numeric) \<in> set (report_column_types (snd (clean no_dates one_gap)))
   \<and> (\<exists>!t. t \<in> {Numeric, Categorical, Datetime}
            \<and> (''v'', t) \<in> set (report_column_types (snd (clean no_dates one_gap))))"
proof -
  have 1: "''v'' \<in> set (map fst (columns (fst (clean no_dates one_gap))))" by code_simp
  have 2: "(''v'', Numeric) \<in> set (report_column_types (snd (clean no_dates one_gap)))" by code_simp
  from type_map_matches_columns[of no_dates one_gap] 1 2 show ?thesis by blast
qed

text \<open>
  C3, as the code has it. The missing fraction that decides the drop is taken after the
  duplicate rows are removed: null count over the row count of the deduplicated table.
  Every column whose fraction, so taken, exceeds 0.50 is absent from the cleaned type map.
\<close>

theorem high_missing_column_absent:
  assumes "wf_frame d"
    and "(col, s) \<in> set (columns (drop_duplicates d))"
    and "of_nat (isna_sum s) / of_nat (index_len (drop_duplicates d)) > (1 / 2 :: rat)"
  shows "col \<notin> set (map fst (report_column_types (snd (clean conv d))))"
proof -
  let ?d1 = "drop_duplicates d"
  let ?n = "index_len ?d1"
  have dist: "distinct (map fst (columns ?d1))"
    using assms(1) by (simp add: drop_duplicates_names wf_frame_def)
  have miss: "isna_sum s \<noteq> 0"
  proof
    assume "isna_sum s = 0"
    with assms(3) show False by simp
  qed
  have scale: "x * 100 > 50" if "x > 1 / 2" for x :: rat
    using that by linarith
  from scale[OF assms(3)] have "(of_nat (isna_sum s) / of_nat ?n) * (100::rat) > 50" .
  with miss have h: "fst (handle_one ?n (col, s)) = []" by (simp add: handle_one_def Let_def)
  have "map_of (concat (map (\<lambda>c. fst (handle_one ?n c)) (columns ?d1))) col = None"
    using handle_concat_lookup[OF dist assms(2), of ?n] h by simp
  then have "col \<notin> fst ` set (concat (map (\<lambda>c. fst (handle_one ?n c)) (columns ?d1)))"
    by (simp add: map_of_eq_None_iff)
  then have "col \<notin> set (map fst (columns (fst (clean conv d))))"
    using clean_columns_names[OF assms(1), of conv] by simp
  with clean_type_keys[of conv d] show ?thesis by simp
qed

theorem high_missing_column_absent_witness:
  "wf_frame with_empty_col
   \<and> (''e'', Object [None, None, None]) \<in> set (columns (drop_duplicates with_empty_col))
   \<and> of_nat (isna_sum (Object [None, None, None])) / of_nat (index_len (drop_duplicates with_empty_col))
       > (1 / 2 :: rat)
   \<and> ''e'' \<notin> set (map fst (report_column_types (snd (clean no_dates with_empty_col))))"
proof -
  have 1: "wf_frame with_empty_col" by code_simp
  have 2: "(''e'', Object [None, None, None]) \<in> set (columns (drop_duplicates with_empty_col))"
    by code_simp
  have 3: "of_nat (isna_sum (Object [None, None, None])) / of_nat (index_len (drop_duplicates with_empty_col))
       > (1 / 2 :: rat)" by code_simp
  from high_missing_column_absent[OF 1 2 3, of no_dates] 1 2 3 show ?thesis by blast
qed

theorem high_missing_original_counterexample:
  "wf_frame repeated_rows
   \<and> (''a'', Float64 [None, None, None, Some 1]) \<in> set (columns repeated_rows)
   \<and> of_nat (isna_sum (Float64 [None, None, None, Some 1])) / of_nat (index_len repeated_rows)
       > (1 / 2 :: rat)
   \<and> ''a'' \<in> set (map fst (report_column_types (snd (clean no_dates repeated_rows))))"
  by code_simp

lemma all_missing_series_mask:
  "isna_sum s = series_len s \<Longrightarrow> isna_sum (series_mask m s) = series_len (series_mask m s)"
proof (cases s)
  case (Int64 xs)
  assume "isna_sum s = series_len s"
  with Int64 show ?thesis by (simp add: series_len_def)
next
  case (BoolCol xs)
  assume "isna_sum s = series_len s"
  with BoolCol show ?thesis by (simp add: series_len_def)
next
  case (Float64 xs)
  assume "isna_sum s = series_len s"
  with Float64 show ?thesis by (simp add: series_len_def all_missing_take_mask)
next
  case (Object xs)
  assume "isna_sum s = series_len s"
  with Object show ?thesis by (simp add: series_len_def all_missing_take_mask)
next
  case (Datetime64 xs)
  assume "isna_sum s = series_len s"
  with Datetime64 show ?thesis by (simp add: series_len_def all_missing_take_mask)
qed

lemma drop_duplicates_all_missing:
  assumes "(col, s) \<in> set (columns d)" and "isna_sum s = series_len s"
  shows "\<exists>s1. (col, s1) \<in> set (columns (drop_duplicates d)) \<and> isna_sum s1 = series_len s1"
proof (cases "empty_frame d")
  case True
  with assms show ?thesis by (auto simp: drop_duplicates_def)
next
  case False
  let ?keep = "map Not (duplicated d)"
  from assms(1) False have "(col, series_mask ?keep s) \<in> set (columns (drop_duplicates d))"
    by (force simp: drop_duplicates_def Let_def)
  with all_missing_series_mask[OF assms(2)] show ?thesis by blast
qed

lemma handle_one_unknown_name:
  "FilledUnknown k col \<in> set (snd (handle_one n c)) \<Longrightarrow> fst c = col"
proof -
  obtain s' m where fc: "fill_categorical (snd c) = (s', m)" by (cases "fill_categorical (snd c)")
  assume "FilledUnknown k col \<in> set (snd (handle_one n c))"
  with fc show ?thesis
    by (cases m) (simp_all add: handle_one_def Let_def split: if_splits)
qed

lemma dropped_column_absent:
  assumes wf: "wf_frame d"
    and mem: "(col, s) \<in> set (columns (drop_duplicates d))"
    and h: "fst (handle_one (index_len (drop_duplicates d)) (col, s)) = []"
  shows "col \<notin> set (map fst (columns (fst (clean conv d))))"
proof -
  let ?d1 = "drop_duplicates d"
  let ?n = "index_len ?d1"
  have dist: "distinct (map fst (columns ?d1))"
    using wf by (simp add: drop_duplicates_names wf_frame_def)
  have "map_of (concat (map (\<lambda>c. fst (handle_one ?n c)) (columns ?d1))) col = None"
    using handle_concat_lookup[OF dist mem, of ?n] h by simp
  then have "col \<notin> fst ` set (concat (map (\<lambda>c. fst (handle_one ?n c)) (columns ?d1)))"
    by (simp add: map_of_eq_None_iff)
  then show ?thesis using clean_columns_names[OF wf, of conv] by simp
qed

text \<open>
  C7, as the code has it. A column whose every value is missing, in a table with at least
  one row, is 100% missing and is dropped before the fill is reached: it is in neither the
  cleaned frame nor the type map, the report records the drop at 100%, and no sentinel fill
  is recorded for it. The Cleaner is a total function, so the run completes.
\<close>

theorem all_missing_column_dropped:
  assumes "wf_frame d" and "0 < index_len d"
    and "(col, s) \<in> set (columns d)" and "isna_sum s = series_len s"
  shows "col \<notin> set (map fst (columns (fst (clean conv d))))
       \<and> col \<notin> set (map fst (report_column_types (snd (clean conv d))))
       \<and> DroppedColumn col 100 \<in> set (actions (snd (clean conv d)))
       \<and> (\<forall>k. FilledUnknown k col \<notin> set (actions (snd (clean conv d))))"
proof -
  let ?d1 = "drop_duplicates d"
  let ?n = "index_len ?d1"
  let ?rest = "concat (map (\<lambda>c. snd (handle_one ?n c)) (columns ?d1))"
  have wf1: "wf_frame ?d1" using assms(1) by (rule wf_drop_duplicates)
  then have dist: "distinct (map fst (columns ?d1))" by (simp add: wf_frame_def)
  from drop_duplicates_all_missing[OF assms(3,4)]
  obtain s1 where mem: "(col, s1) \<in> set (columns ?d1)" and all: "isna_sum s1 = series_len s1"
    by blast
  from wf1 mem have len: "series_len s1 = ?n" by (auto simp: wf_frame_def list_all_iff)
  have pos: "0 < ?n" using assms(2) by (rule drop_duplicates_rows_pos)
  from all len pos have pct: "(of_nat (isna_sum s1) / of_nat ?n) * (100::rat) = 100" by simp
  from all len pos pct have h: "handle_one ?n (col, s1) = ([], [DroppedColumn col 100])"
    by (simp add: handle_one_def Let_def)
  then have h1: "fst (handle_one ?n (col, s1)) = []" by simp
  have a1: "col \<notin> set (map fst (columns (fst (clean conv d))))"
    using dropped_column_absent[OF assms(1) mem h1] .
  with clean_type_keys[of conv d]
  have a2: "col \<notin> set (map fst (report_column_types (snd (clean conv d))))" by simp
  have acts: "actions (snd (clean conv d)) =
      cleaning_report (remove_duplicates (init_cleaner d)) @ ?rest"
    using clean_actions[OF assms(1)] .
  have "DroppedColumn col 100 \<in> set ?rest" using mem h by force
  with acts have a3: "DroppedColumn col 100 \<in> set (actions (snd (clean conv d)))" by simp
  have a4: "FilledUnknown k col \<notin> set (actions (snd (clean conv d)))" for k
  proof
    assume "FilledUnknown k col \<in> set (actions (snd (clean conv d)))"
    with acts have "FilledUnknown k col \<in> set ?rest"
      by (simp add: remove_duplicates_report split: if_splits)
    then obtain c where c: "c \<in> set (columns ?d1)"
      and u: "FilledUnknown k col \<in> set (snd (handle_one ?n c))" by auto
    from handle_one_unknown_name[OF u] have "fst c = col" .
    with c dist mem have "c = (col, s1)"
      by (metis eq_key_imp_eq_value prod.collapse)
    with u h show False by simp
  qed
  from a1 a2 a3 a4 show ?thesis by blast
qed

theorem all_missing_column_dropped_witness:
  "wf_frame with_empty_col \<and> 0 < index_len with_empty_col
   \<and> (''e'', Object [None, None, None]) \<in> set (columns with_empty_col)
   \<and> isna_sum (Object [None, None, None]) = series_len (Object [None, None, None])
   \<and> ''e'' \<notin> set (map fst (columns (fst (clean no_dates with_empty_col))))
   \<and> DroppedColumn ''e'' 100 \<in> set (actions (snd (clean no_dates with_empty_col)))
   \<and> FilledUnknown 3 ''e'' \<notin> set (actions (snd (clean no_dates with_empty_col)))"
proof -
  have 1: "wf_frame with_empty_col" by code_simp
  have 2: "0 < index_len with_empty_col" by code_simp
  have 3: "(''e'', Object [None, None, None]) \<in> set (columns with_empty_col)" by code_simp
  have 4: "isna_sum (Object [None, None, None]) = series_len (Object [None, None, None])"
    by code_simp
  from all_missing_column_dropped[OF 1 2 3 4, of no_dates] 1 2 3 4 show ?thesis by blast
qed

theorem all_missing_sentinel_counterexample:
  "isna_sum (Object [None, None, None]) = series_len (Object [None, None, None])
   \<and> (''e'', Object [None, None, None]) \<in> set (columns with_empty_col)
   \<and> actions (snd (clean no_dates with_empty_col)) = [DroppedColumn ''e'' 100]
   \<and> map_of (columns (fst (clean no_dates with_empty_col))) ''e'' = None"
  by code_simp






section \<open>The type map of a run agrees with the dtypes\<close>

lemma numeric_cols_mem: "c \<in> set (numeric_cols_of ct) \<longleftrightarrow> (c, Numeric) \<in> set ct"
  by (force simp: numeric_cols_of_def)

lemma select_numeric_total:
  "numeric_typed d ct \<Longrightarrow> \<exists>ss. select_numeric d (numeric_cols_of ct) = Some ss"
proof -
  have "list_all (\<lambda>c. case map_of (columns d) c of None \<Rightarrow> False | Some s \<Rightarrow> is_numeric_dtype s) cs
        \<Longrightarrow> \<exists>ss. select_numeric d cs = Some ss" for cs
    by (induction cs) (auto split: option.splits)
  then show "numeric_typed d ct \<Longrightarrow> ?thesis" by (simp add: numeric_typed_def)
qed

lemma numeric_typed_iff:
  "numeric_typed d ct \<longleftrightarrow>
   (\<forall>c. (c, Numeric) \<in> set ct \<longrightarrow> (\<exists>s. map_of (columns d) c = Some s \<and> is_numeric_dtype s))"
proof -
  have "(case map_of (columns d) c of None \<Rightarrow> False | Some s \<Rightarrow> is_numeric_dtype s)
        \<longleftrightarrow> (\<exists>s. map_of (columns d) c = Some s \<and> is_numeric_dtype s)" for c
    by (cases "map_of (columns d) c") simp_all
  then show ?thesis
    by (simp add: numeric_typed_def list_all_iff Ball_def numeric_cols_mem)
qed

lemma detect_column_numeric_typed:
  assumes "numeric_typed (df st) (column_types st)"
  shows "numeric_typed (df (detect_column conv col st)) (column_types (detect_column conv col st))"
proof (cases "map_of (columns (df st)) col")
  case None
  with assms show ?thesis by (simp add: detect_column_def)
next
  case (Some s)
  show ?thesis
  proof (cases "is_numeric_dtype s")
    case True
    have "\<exists>s'. map_of (columns (df st)) c = Some s' \<and> is_numeric_dtype s'"
      if "(c, Numeric) \<in> set (AList.update col Numeric (column_types st))" for c
    proof (cases "c = col")
      case True
      with Some \<open>is_numeric_dtype s\<close> show ?thesis by simp
    next
      case False
      with that update_set_subset[of col Numeric "column_types st"]
      have "(c, Numeric) \<in> set (column_types st)" by auto
      with assms show ?thesis by (simp add: numeric_typed_iff)
    qed
    with Some True show ?thesis by (simp add: detect_column_def numeric_typed_iff)
  next
    case False
    have keep: "\<exists>s'. map_of (AList.update col s2 (columns (df st))) c = Some s' \<and> is_numeric_dtype s'"
           "\<exists>s'. map_of (columns (df st)) c = Some s' \<and> is_numeric_dtype s'"
      if "(c, Numeric) \<in> set (AList.update col t (column_types st))" and "t \<noteq> Numeric" for c t s2
    proof -
      from that update_set_subset[of col t "column_types st"]
      have "(c, Numeric) \<in> set (column_types st)" by auto
      with assms obtain s' where s': "map_of (columns (df st)) c = Some s'" "is_numeric_dtype s'"
        by (auto simp: numeric_typed_iff)
      with Some False have "c \<noteq> col" by auto
      with s' show "\<exists>s'. map_of (AList.update col s2 (columns (df st))) c = Some s' \<and> is_numeric_dtype s'"
        by (simp add: update_conv')
      from s' show "\<exists>s'. map_of (columns (df st)) c = Some s' \<and> is_numeric_dtype s'" by blast
    qed
    from Some False show ?thesis
      by (auto simp: detect_column_def numeric_typed_iff set_column_def keep
          split: option.split series.split)
  qed
qed

lemma detect_fold_numeric_typed:
  "numeric_typed (df st) (column_types st) \<Longrightarrow>
   numeric_typed (df (fold (detect_column conv) ns st)) (column_types (fold (detect_column conv) ns st))"
  by (induction ns arbitrary: st) (simp_all add: detect_column_numeric_typed)

lemma clean_numeric_typed:
  "numeric_typed (fst (clean conv d)) (report_column_types (snd (clean conv d)))"
proof -
  let ?st2 = "(handle_missing_values (remove_duplicates (init_cleaner d)))\<lparr>column_types := []\<rparr>"
  have "numeric_typed (df ?st2) (column_types ?st2)" by (simp add: numeric_typed_iff)
  from detect_fold_numeric_typed[OF this] show ?thesis
    by (simp add: clean_def Let_def detect_column_types_def)
qed

section \<open>Claims about the statistics and the insights\<close>

text \<open>
  C9. For the cleaned frame and type map of any run of the Cleaner, with k columns typed
  Numeric, the list of top correlations has length min(5, C(k,2)); when k < 2 the
  correlations section is the empty dict.
\<close>

theorem top_correlations_count:
  "length (get_top_correlations
     (get_correlations pearson (fst (clean conv d)) (report_column_types (snd (clean conv d)))))
   = min 5 (length (numeric_cols_of (report_column_types (snd (clean conv d)))) choose 2)
   \<and> (length (numeric_cols_of (report_column_types (snd (clean conv d)))) < 2 \<longrightarrow>
        get_correlations pearson (fst (clean conv d)) (report_column_types (snd (clean conv d)))
          = None)"
proof -
  from select_numeric_total[OF clean_numeric_typed[of conv d]]
  obtain ss where "select_numeric (fst (clean conv d))
      (numeric_cols_of (report_column_types (snd (clean conv d)))) = Some ss" by blast
  from get_correlations_length[OF this, of pearson] show ?thesis
    by (simp add: get_correlations_def)
qed

theorem top_correlations_count_witness:
  "length (numeric_cols_of (report_column_types (snd (clean no_dates with_empty_col)))) < 2
   \<and> get_correlations (\<lambda>a b. Fl 1) (fst (clean no_dates with_empty_col))
        (report_column_types (snd (clean no_dates with_empty_col))) = None
   \<and> length (get_top_correlations (get_correlations (\<lambda>a b. Fl 1) (fst (clean no_dates one_gap))
        (report_column_types (snd (clean no_dates one_gap))))) = 1"
proof -
  have 1: "length (numeric_cols_of (report_column_types (snd (clean no_dates with_empty_col)))) < 2"
    by code_simp
  have 2: "length (numeric_cols_of (report_column_types (snd (clean no_dates one_gap)))) = 2"
    by code_simp
  from top_correlations_count[of "\<lambda>a b. Fl 1" no_dates with_empty_col]
       top_correlations_count[of "\<lambda>a b. Fl 1" no_dates one_gap] 1 2
  show ?thesis by simp
qed

text \<open>What the numeric-variability loop appends.\<close>

lemma numeric_loop_appends:
  "analyze_numeric_columns_loop ns ins = Inr res \<Longrightarrow>
   \<exists>new. res = ins @ new
       \<and> list_all (\<lambda>i. \<not> is_data_quality i
           \<and> (\<exists>c cs. (c, cs) \<in> set ns \<and> variability_column i = Some c \<and> fl_gt (ns_std cs) 0)) new"
proof (induction ns ins arbitrary: res rule: analyze_numeric_columns_loop.induct)
  case (1 insights)
  then show ?case by simp
next
  case (2 col col_stats rest insights)
  show ?case
  proof (cases "fl_gt (ns_std col_stats) 0")
    case False
    with 2 have "analyze_numeric_columns_loop rest insights = Inr res" by (simp add: Let_def)
    from "2.IH"(3)[OF refl refl refl refl False this] show ?thesis
      by (fastforce simp: list_all_iff)
  next
    case True
    show ?thesis
    proof (cases "py_truediv (ns_std col_stats) (ns_mean col_stats)")
      case (Inl e)
      with 2 True show ?thesis by (simp add: Let_def)
    next
      case (Inr q)
      show ?thesis
      proof (cases "fl_gt (fl_times q 100) 50")
        case hv: True
        with 2 True Inr have
          "analyze_numeric_columns_loop rest
             (insights @ [HighVariability col (fl_times q 100) (ns_min col_stats) (ns_max col_stats)]) = Inr res"
          by (simp add: Let_def)
        from "2.IH"(1)[OF refl refl refl refl True Inr refl hv this] True show ?thesis
          by (fastforce simp: list_all_iff)
      next
        case cv: False
        with 2 True Inr have
          "analyze_numeric_columns_loop rest
             (insights @ [ConsistentValues col (ns_mean col_stats) (ns_std col_stats)]) = Inr res"
          by (simp add: Let_def)
        from "2.IH"(2)[OF refl refl refl refl True Inr refl cv this] True show ?thesis
          by (fastforce simp: list_all_iff)
      qed
    qed
  qed
qed

text \<open>
  C4, as the code has it. The rule looks only at columns whose standard deviation is
  greater than 0. For a Numeric column of the bundle whose standard deviation is 0,
  whatever its mean, it emits no observation about that column: neither "consistent
  values" nor "high variability".
\<close>

theorem zero_std_emits_nothing:
  assumes "analyze_numeric_columns stats [] = Inr result"
    and "distinct (map fst (numeric_stats stats))"
    and "(col, col_stats) \<in> set (numeric_stats stats)"
    and "ns_std col_stats = Fl 0"
  shows "\<forall>i \<in> set result. variability_column i \<noteq> Some col"
proof
  fix i assume i: "i \<in> set result"
  from numeric_loop_appends[of "numeric_stats stats" "[]" result] assms(1) i
  obtain c cs where c: "(c, cs) \<in> set (numeric_stats stats)"
    and v: "variability_column i = Some c" and pos: "fl_gt (ns_std cs) 0"
    by (auto simp: analyze_numeric_columns_def list_all_iff)
  show "variability_column i \<noteq> Some col"
  proof
    assume "variability_column i = Some col"
    with v have "c = col" by simp
    with c assms(2,3) have "cs = col_stats" by (meson eq_key_imp_eq_value)
    with pos assms(4) show False by simp
  qed
qed

theorem zero_std_emits_nothing_witness:
  "analyze_numeric_columns constant_bundle [] = Inr [ConsistentValues ''y'' (Fl 2) (Fl 1)]
   \<and> distinct (map fst (numeric_stats constant_bundle))
   \<and> (''x'', constant_stats) \<in> set (numeric_stats constant_bundle)
   \<and> ns_std constant_stats = Fl 0
   \<and> variability_column (ConsistentValues ''y'' (Fl 2) (Fl 1)) \<noteq> Some ''x''"
proof -
  have 1: "analyze_numeric_columns constant_bundle [] = Inr [ConsistentValues ''y'' (Fl 2) (Fl 1)]"
    by code_simp
  have 2: "distinct (map fst (numeric_stats constant_bundle))" by code_simp
  have 3: "(''x'', constant_stats) \<in> set (numeric_stats constant_bundle)"
    by (simp add: constant_bundle_def)
  have 4: "ns_std constant_stats = Fl 0" by (simp add: constant_stats_def)
  from zero_std_emits_nothing[OF 1 2 3 4]
  have "variability_column (ConsistentValues ''y'' (Fl 2) (Fl 1)) \<noteq> Some ''x''"
    by (rule bspec) simp
  with 1 2 3 4 show ?thesis by blast
qed

theorem constant_column_counterexample:
  "(''x'', constant_stats) \<in> set (numeric_stats constant_bundle)
   \<and> ns_std constant_stats = Fl 0 \<and> ns_mean constant_stats = Fl 5
   \<and> analyze_numeric_columns constant_bundle [] = Inr [ConsistentValues ''y'' (Fl 2) (Fl 1)]
   \<and> ConsistentValues ''x'' (Fl 5) (Fl 0) \<notin> set [ConsistentValues ''y'' (Fl 2) (Fl 1)]"
  by code_simp

text \<open>What the trend loop appends.\<close>

lemma trend_of_values_kind:
  "i \<in> set (trend_of_values ar c s) \<Longrightarrow> trend_column i = Some c \<and> \<not> is_data_quality i"
  by (auto simp: trend_of_values_def Let_def split: if_splits)

lemma trend_filter:
  "filter (\<lambda>i. trend_column i = Some col) (trend_of_values ar c s) =
     (if c = col then trend_of_values ar c s else [])"
proof (cases "c = col")
  case True
  then have "\<forall>i \<in> set (trend_of_values ar c s). trend_column i = Some col"
    using trend_of_values_kind by blast
  with True show ?thesis by simp
next
  case False
  then have "\<forall>i \<in> set (trend_of_values ar c s). trend_column i \<noteq> Some col"
    using trend_of_values_kind by fastforce
  with False show ?thesis by simp
qed

text \<open>One pass of the loop body, when the loop returns.\<close>

lemma trends_loop_step:
  assumes "analyze_trends_loop ar d (c # cols) ins = Inr res"
  shows "\<exists>s. map_of (columns d) c = Some s
           \<and> (if series_len s < 3 then analyze_trends_loop ar d cols ins = Inr res
               else is_numeric_dtype s
                    \<and> analyze_trends_loop ar d cols (ins @ trend_of_values ar c s) = Inr res)"
proof (cases "map_of (columns d) c")
  case None
  with assms show ?thesis by simp
next
  case (Some s)
  with assms show ?thesis by (cases "is_numeric_dtype s") (auto split: if_splits)
qed

lemma trends_loop_appends:
  "analyze_trends_loop ar d cols ins = Inr res \<Longrightarrow>
   \<exists>new. res = ins @ new \<and> list_all (\<lambda>i. \<not> is_data_quality i) new"
proof (induction cols arbitrary: ins)
  case Nil
  then show ?case by simp
next
  case (Cons c cols)
  from trends_loop_step[OF Cons.prems] obtain s where
    step: "if series_len s < 3 then analyze_trends_loop ar d cols ins = Inr res
           else is_numeric_dtype s
                \<and> analyze_trends_loop ar d cols (ins @ trend_of_values ar c s) = Inr res"
    by blast
  show ?case
  proof (cases "series_len s < 3")
    case True
    with step have "analyze_trends_loop ar d cols ins = Inr res" by simp
    from Cons.IH[OF this] show ?thesis .
  next
    case False
    with step have "analyze_trends_loop ar d cols (ins @ trend_of_values ar c s) = Inr res"
      by simp
    from Cons.IH[OF this] obtain new where
      "res = ins @ trend_of_values ar c s @ new" "list_all (\<lambda>i. \<not> is_data_quality i) new"
      by auto
    moreover have "list_all (\<lambda>i. \<not> is_data_quality i) (trend_of_values ar c s)"
      using trend_of_values_kind by (auto simp: list_all_iff)
    ultimately show ?thesis by auto
  qed
qed

lemma trends_loop_other:
  "analyze_trends_loop ar d cols ins = Inr res \<Longrightarrow> col \<notin> set cols \<Longrightarrow>
   filter (\<lambda>i. trend_column i = Some col) res = filter (\<lambda>i. trend_column i = Some col) ins"
proof (induction cols arbitrary: ins)
  case Nil
  then show ?case by simp
next
  case (Cons c cols)
  from trends_loop_step[OF Cons.prems(1)] obtain s where
    step: "if series_len s < 3 then analyze_trends_loop ar d cols ins = Inr res
           else is_numeric_dtype s
                \<and> analyze_trends_loop ar d cols (ins @ trend_of_values ar c s) = Inr res"
    by blast
  from Cons.prems have ne: "c \<noteq> col" and notin: "col \<notin> set cols" by auto
  show ?case
  proof (cases "series_len s < 3")
    case True
    with step have "analyze_trends_loop ar d cols ins = Inr res" by simp
    from Cons.IH[OF this notin] show ?thesis .
  next
    case False
    with step have "analyze_trends_loop ar d cols (ins @ trend_of_values ar c s) = Inr res"
      by simp
    from Cons.IH[OF this notin] ne show ?thesis by (simp add: trend_filter)
  qed
qed

lemma trends_loop_filter:
  assumes "analyze_trends_loop ar d cols ins = Inr res" and "distinct cols" and "col \<in> set cols"
    and "map_of (columns d) col = Some s" and "\<not> series_len s < 3"
  shows "is_numeric_dtype s \<and>
           filter (\<lambda>i. trend_column i = Some col) res =
           filter (\<lambda>i. trend_column i = Some col) ins @ trend_of_values ar col s"
  using assms(1,2,3)
proof (induction cols arbitrary: ins)
  case Nil
  then show ?case by simp
next
  case (Cons c cols)
  from trends_loop_step[OF Cons.prems(1)] obtain s' where
    look: "map_of (columns d) c = Some s'" and
    step: "if series_len s' < 3 then analyze_trends_loop ar d cols ins = Inr res
           else is_numeric_dtype s'
                \<and> analyze_trends_loop ar d cols (ins @ trend_of_values ar c s') = Inr res"
    by blast
  show ?case
  proof (cases "c = col")
    case True
    with Cons.prems have notin: "col \<notin> set cols" by simp
    from True look assms(4) have eq: "s' = s" by simp
    with step assms(5) True have num: "is_numeric_dtype s"
      and rest: "analyze_trends_loop ar d cols (ins @ trend_of_values ar col s) = Inr res"
      by simp_all
    from trends_loop_other[OF rest notin] num show ?thesis by (simp add: trend_filter)
  next
    case False
    with Cons.prems have mem: "col \<in> set cols" and dist: "distinct cols" by auto
    show ?thesis
    proof (cases "series_len s' < 3")
      case True
      with step have "analyze_trends_loop ar d cols ins = Inr res" by simp
      from Cons.IH[OF this dist mem] show ?thesis .
    next
      case short: False
      with step have "analyze_trends_loop ar d cols (ins @ trend_of_values ar c s') = Inr res"
        by simp
      from Cons.IH[OF this dist mem] False show ?thesis by (simp add: trend_filter)
    qed
  qed
qed

lemma numeric_cols_distinct: "distinct (map fst ct) \<Longrightarrow> distinct (numeric_cols_of ct)"
  by (simp add: numeric_cols_of_def distinct_map_filter)

text \<open>
  C5, as the code has it. For each of the first two Numeric columns (in type-map order)
  with at least 3 values, the trend rule skips emission whenever the first-half mean is
  not greater than zero (zero, negative or NaN). For every such column whose first-half
  mean is positive it computes, in the platform's double arithmetic, change_pct =
  (mean(second half) - mean(first half)) / mean(first half) * 100 and emits one upward or
  downward trend observation exactly when |change_pct| > 10.
\<close>

theorem trend_rule:
  assumes "analyze_trends ar d ct [] = Inr result"
    and "distinct (map fst ct)"
    and "col \<in> set (take 2 (numeric_cols_of ct))"
    and "map_of (columns d) col = Some s" and "3 \<le> series_len s"
  shows "is_numeric_dtype s \<and>
     (let mid_point = series_len s div 2;
          first_half_mean = np_mean ar (series_take mid_point s);
          second_half_mean = np_mean ar (series_drop mid_point s);
          change_pct = np_mul ar (np_div ar (np_sub ar second_half_mean first_half_mean)
                                     first_half_mean) (Finite 100)
      in filter (\<lambda>i. trend_column i = Some col) result =
           (if np_gt first_half_mean 0 \<and> np_gt (np_abs change_pct) 10
            then [TrendInsight col (if np_gt change_pct 0 then Upward else Downward) (np_abs change_pct)]
            else []))"
proof -
  have dist: "distinct (take 2 (numeric_cols_of ct))"
    using assms(2) by (simp add: numeric_cols_distinct)
  from assms(5) have len: "\<not> series_len s < 3" by simp
  from assms(1) have "analyze_trends_loop ar d (take 2 (numeric_cols_of ct)) [] = Inr result"
    by (simp add: analyze_trends_def)
  from trends_loop_filter[OF this dist assms(3,4) len]
  have "is_numeric_dtype s"
    and "filter (\<lambda>i. trend_column i = Some col) result = trend_of_values ar col s" by auto
  then show ?thesis by (auto simp: trend_of_values_def Let_def)
qed

theorem trend_rule_witness:
  "analyze_trends exact_arith rising [(''x'', Numeric)] [] = Inr [TrendInsight ''x'' Upward (Finite 400)]
   \<and> ''x'' \<in> set (take 2 (numeric_cols_of [(''x'', Numeric)]))
   \<and> map_of (columns rising) ''x'' = Some (Int64 [1, 1, 5, 5])
   \<and> 3 \<le> series_len (Int64 [1, 1, 5, 5])
   \<and> np_mean exact_arith (series_take 2 (Int64 [1, 1, 5, 5])) = Finite 1
   \<and> np_mean exact_arith (series_drop 2 (Int64 [1, 1, 5, 5])) = Finite 5
   \<and> filter (\<lambda>i. trend_column i = Some ''x'') [TrendInsight ''x'' Upward (Finite 400)]
       = [TrendInsight ''x'' Upward (Finite 400)]"
proof -
  have 1: "analyze_trends exact_arith rising [(''x'', Numeric)] []
             = Inr [TrendInsight ''x'' Upward (Finite 400)]"
    by code_simp
  have 2: "distinct (map fst [(''x'', Numeric)])" by simp
  have 3: "''x'' \<in> set (take 2 (numeric_cols_of [(''x'', Numeric)]))" by code_simp
  have 4: "map_of (columns rising) ''x'' = Some (Int64 [1, 1, 5, 5])" by code_simp
  have 5: "3 \<le> series_len (Int64 [1, 1, 5, 5])" by code_simp
  have 6: "np_mean exact_arith (series_take 2 (Int64 [1, 1, 5, 5])) = Finite 1" by code_simp
  have 7: "np_mean exact_arith (series_drop 2 (Int64 [1, 1, 5, 5])) = Finite 5" by code_simp
  have 8: "series_len (Int64 [1, 1, 5, 5]) div 2 = 2" by code_simp
  have 9: "np_mul exact_arith (np_div exact_arith (np_sub exact_arith (Finite 5) (Finite 1))
             (Finite 1)) (Finite 100) = Finite 400" by code_simp
  from trend_rule[OF 1 2 3 4 5]
  have "filter (\<lambda>i. trend_column i = Some ''x'') [TrendInsight ''x'' Upward (Finite 400)]
       = [TrendInsight ''x'' Upward (Finite 400)]"
    by (simp add: Let_def 6 7 8 9)
  with 1 3 4 5 6 7 show ?thesis by blast
qed

theorem negative_first_half_counterexample:
  "take 2 (numeric_cols_of [(''x'', Numeric)]) = [''x'']
   \<and> map_of (columns falling_negative) ''x'' = Some (Int64 [-1, -1, -5, -5])
   \<and> np_mean exact_arith (series_take 2 (Int64 [-1, -1, -5, -5])) = Finite (-1)
   \<and> np_mean exact_arith (series_drop 2 (Int64 [-1, -1, -5, -5])) = Finite (-5)
   \<and> np_mul exact_arith (np_div exact_arith (np_sub exact_arith (Finite (-5)) (Finite (-1)))
        (Finite (-1))) (Finite 100) = Finite 400
   \<and> analyze_trends exact_arith falling_negative [(''x'', Numeric)] [] = Inr []"
  by code_simp

text \<open>The rules before the closing one append no closing observation.\<close>

lemma categorical_loop_appends:
  "analyze_categorical_columns_loop rows cs ins = Inr res \<Longrightarrow>
   \<exists>new. res = ins @ new \<and> list_all (\<lambda>i. \<not> is_data_quality i) new"
proof (induction rows cs ins arbitrary: res rule: analyze_categorical_columns_loop.induct)
  case (1 rows insights)
  then show ?case by simp
next
  case (2 rows col col_stats rest insights)
  from "2.prems" have r: "rows \<noteq> 0" by (auto split: if_splits)
  let ?p = "(of_nat (most_common_count col_stats) / of_nat rows) * (100::rat)"
  show ?case
  proof (cases "?p > 50")
    case True
    with "2.prems" r have
      "analyze_categorical_columns_loop rows rest
         (insights @ [Dominates (most_common col_stats) col ?p]) = Inr res"
      by (simp add: Let_def)
    from "2.IH"(1)[OF r refl True this] show ?thesis by (fastforce simp: list_all_iff)
  next
    case False
    with "2.prems" r have
      "analyze_categorical_columns_loop rows rest
         (insights @ [UniqueValues col (unique_values col_stats) (most_common col_stats) ?p]) = Inr res"
      by (simp add: Let_def)
    from "2.IH"(2)[OF r refl False this] show ?thesis by (fastforce simp: list_all_iff)
  qed
qed

lemma correlations_appends:
  "analyze_correlations stats ins = Inr res \<Longrightarrow>
   \<exists>new. res = ins @ new \<and> list_all (\<lambda>i. \<not> is_data_quality i) new"
  by (auto simp: analyze_correlations_def Let_def split: list.splits if_splits)

lemma rules_before_quality_kinds:
  assumes "rules_before_quality ar d ct stats = Inr pre"
  shows "list_all (\<lambda>i. \<not> is_data_quality i) pre"
proof -
  from assms obtain r1 where r1: "analyze_numeric_columns stats [] = Inr r1"
    by (cases "analyze_numeric_columns stats []") (auto simp: rules_before_quality_def and_then_def)
  with assms obtain r2 where r2: "analyze_categorical_columns stats r1 = Inr r2"
    by (cases "analyze_categorical_columns stats r1") (auto simp: rules_before_quality_def and_then_def)
  with assms r1 obtain r3 where r3: "analyze_trends ar d ct r2 = Inr r3"
    by (cases "analyze_trends ar d ct r2") (auto simp: rules_before_quality_def and_then_def)
  with assms r1 r2 have r4: "analyze_correlations stats r3 = Inr pre"
    by (simp add: rules_before_quality_def and_then_def)
  from numeric_loop_appends[of "numeric_stats stats" "[]" r1] r1
  have k1: "list_all (\<lambda>i. \<not> is_data_quality i) r1"
    by (auto simp: analyze_numeric_columns_def list_all_iff)
  from r2 have "analyze_categorical_columns_loop (total_rows (overview stats))
      (categorical_stats stats) r1 = Inr r2" by (simp add: analyze_categorical_columns_def)
  from categorical_loop_appends[OF this] k1
  have k2: "list_all (\<lambda>i. \<not> is_data_quality i) r2" by auto
  from r3 have "analyze_trends_loop ar d (take 2 (numeric_cols_of ct)) r2 = Inr r3"
    by (simp add: analyze_trends_def)
  from trends_loop_appends[OF this] k2
  have k3: "list_all (\<lambda>i. \<not> is_data_quality i) r3" by auto
  from correlations_appends[OF r4] k3 show ?thesis by auto
qed

text \<open>
  C6, as the code has it. Whenever the Insight Engine returns a list, the list is the
  first 7 entries of what the rules appended: it has at most 7 entries, and it holds the
  closing data-quality observation (total row and column counts), once, exactly when the
  four rules before it emitted at most 6 observations; otherwise the cap cuts the closing
  observation off.
\<close>

theorem insights_cap_and_closing:
  assumes "generate_insights ar d ct stats = Inr result"
  shows "length result \<le> 7
       \<and> (\<exists>pre. rules_before_quality ar d ct stats = Inr pre
            \<and> result = take 7 (pre @ [DataQuality (total_rows (overview stats))
                                                   (total_columns (overview stats))])
            \<and> filter is_data_quality result =
                (if length pre < 7
                 then [DataQuality (total_rows (overview stats)) (total_columns (overview stats))]
                 else []))"
proof -
  let ?dq = "DataQuality (total_rows (overview stats)) (total_columns (overview stats))"
  from assms obtain pre where pre: "rules_before_quality ar d ct stats = Inr pre"
    by (cases "rules_before_quality ar d ct stats") (auto simp: generate_insights_def and_then_def)
  with assms have res: "result = take 7 (pre @ [?dq])"
    by (auto simp: generate_insights_def and_then_def analyze_data_quality_def)
  from rules_before_quality_kinds[OF pre] have none: "filter is_data_quality pre = []"
    by (auto simp: list_all_iff filter_empty_conv)
  have "filter is_data_quality result = (if length pre < 7 then [?dq] else [])"
  proof (cases "length pre < 7")
    case True
    with res have "result = pre @ [?dq]" by simp
    with none True show ?thesis by simp
  next
    case False
    with res have "result = take 7 pre" by simp
    moreover have "filter is_data_quality (take 7 pre) = []"
      using none by (auto simp: filter_empty_conv dest: in_set_takeD)
    ultimately show ?thesis using False by simp
  qed
  with pre res show ?thesis by auto
qed

theorem insights_cap_and_closing_witness:
  "generate_insights exact_arith rising [(''x'', Numeric)] rising_bundle
     = Inr [TrendInsight ''x'' Upward (Finite 400), DataQuality 4 1]
   \<and> rules_before_quality exact_arith rising [(''x'', Numeric)] rising_bundle
     = Inr [TrendInsight ''x'' Upward (Finite 400)]
   \<and> filter is_data_quality [TrendInsight ''x'' Upward (Finite 400), DataQuality 4 1] = [DataQuality 4 1]"
proof -
  have 1: "generate_insights exact_arith rising [(''x'', Numeric)] rising_bundle
     = Inr [TrendInsight ''x'' Upward (Finite 400), DataQuality 4 1]" by code_simp
  have 2: "rules_before_quality exact_arith rising [(''x'', Numeric)] rising_bundle
     = Inr [TrendInsight ''x'' Upward (Finite 400)]" by code_simp
  have 3: "total_rows (overview rising_bundle) = 4" "total_columns (overview rising_bundle) = 1"
    by (simp_all add: rising_bundle_def)
  from insights_cap_and_closing[OF 1] 1 2 3 show ?thesis by simp
qed

theorem closing_observation_cut_counterexample:
  "generate_insights exact_arith seven_frame seven_types seven_bundle =
     Inr [ConsistentValues ''c1'' (Fl 2) (Fl 1), ConsistentValues ''c2'' (Fl 2) (Fl 1),
          ConsistentValues ''c3'' (Fl 2) (Fl 1), ConsistentValues ''c4'' (Fl 2) (Fl 1),
          ConsistentValues ''c5'' (Fl 2) (Fl 1), ConsistentValues ''c6'' (Fl 2) (Fl 1),
          ConsistentValues ''c7'' (Fl 2) (Fl 1)]"
  by code_simp

section \<open>The caller boundary and the empty table\<close>

text \<open>
  C1. A table with zero rows should be refused before cleaning begins. \<open>upload_file\<close>
  refuses it; \<open>analyze_data\<close> hands it to the Cleaner, which runs and returns a report.
\<close>

theorem zero_rows_reach_cleaner:
  "index_len header_only = 0
   \<and> upload_file_validation header_only = Inl (HTTPException 400 ''File is empty'')
   \<and> analyze_data_clean no_dates header_only =
       Inr (\<lparr>index_len = 0, columns = [(''id'', Datetime64 []), (''name'', Datetime64 [])]\<rparr>,
            \<lparr>original_rows = 0, original_cols = 2, cleaned_rows = 0, cleaned_cols = 2,
             actions = [], report_column_types = [(''id'', Datetime), (''name'', Datetime)]\<rparr>)"
  by code_simp

end
